theory Spec2Isabelle
  imports Main
begin

section \<open>The library store of the compiler: \<^verbatim>\<open>src/lib.c\<close>\<close>

text \<open>
  A library is a directory of compiled units with an in-memory cache in front of it.
  The C file keeps two process-wide variables, \<^verbatim>\<open>loaded\<close> (a linked list of the open
  handles) and \<^verbatim>\<open>work\<close>, and talks to the file system through libc. The embedding
  passes both explicitly: a \<open>state\<close> record holds the heap of \<^verbatim>\<open>struct lib\<close> objects,
  the list, the work pointer and a model of the file system that records every system
  call it serves. An abort of the process (a failed \<^verbatim>\<open>assert\<close>, \<^verbatim>\<open>fatal\<close>, the use of
  an invalid pointer) is a value of type \<open>fault\<close>.
\<close>

subsection \<open>Constants and libc string helpers\<close>

definition MAX_UNITS :: nat where
  "MAX_UNITS = 16"

definition MAX_SEARCH_PATHS :: nat where
  "MAX_SEARCH_PATHS = 64"

text \<open>\<^verbatim>\<open>PATH_MAX\<close> comes from \<^verbatim>\<open>limits.h\<close>; 4096 is its value on Linux.\<close>

definition PATH_MAX :: nat where
  "PATH_MAX = 4096"

text \<open>\<^verbatim>\<open>toupper\<close> and \<^verbatim>\<open>tolower\<close> in the C locale: only the 26 ASCII letters move.\<close>

definition toupper :: "char \<Rightarrow> char" where
  "toupper c = (let n = (of_char c :: nat)
                in if 97 \<le> n \<and> n \<le> 122 then char_of (n - 32) else c)"

definition tolower :: "char \<Rightarrow> char" where
  "tolower c = (let n = (of_char c :: nat)
                in if 65 \<le> n \<and> n \<le> 90 then char_of (n + 32) else c)"

text \<open>
  \<^verbatim>\<open>snprintf(buf, size, "%s/%s", a, b)\<close>: the two strings joined by a slash, cut to
  \<open>sz - 1\<close> characters (the last byte of the buffer is the terminator).
\<close>

definition snprintf_join :: "nat \<Rightarrow> string \<Rightarrow> string \<Rightarrow> string" where
  "snprintf_join sz a b = take (sz - 1) (a @ ''/'' @ b)"

text \<open>
  \<^verbatim>\<open>strtok(s, ":")\<close> called until it returns \<^verbatim>\<open>NULL\<close>: the maximal runs of characters
  other than the delimiter, in order. Empty runs (a leading, trailing or doubled
  delimiter) are skipped, so a string of delimiters only has no token at all.
\<close>

fun strtok_from :: "char \<Rightarrow> string \<Rightarrow> string \<Rightarrow> string list" where
  "strtok_from d cur [] = (if cur = [] then [] else [cur])"
| "strtok_from d cur (c # cs) =
     (if c = d then (if cur = [] then strtok_from d [] cs else cur # strtok_from d [] cs)
      else strtok_from d (cur @ [c]) cs)"

definition strtok_all :: "char \<Rightarrow> string \<Rightarrow> string list" where
  "strtok_all d s = strtok_from d [] s"

subsection \<open>Identifiers and unit trees\<close>

text \<open>
  Modelled from the spec: the interned-identifier table (\<^verbatim>\<open>ident_new\<close>, \<^verbatim>\<open>istr\<close>, declared
  in a header that is not part of the sources at hand). An identifier is an opaque
  handle for a name, equal to another exactly when the names are equal, with a stable
  string rendering; the model takes the name itself.
\<close>

type_synonym ident_t = string

definition ident_new :: "string \<Rightarrow> ident_t" where
  "ident_new s = s"

definition istr :: "ident_t \<Rightarrow> string" where
  "istr i = i"

definition upcase_name :: "string \<Rightarrow> ident_t" where
  "upcase_name nm = ident_new (map toupper nm)"

text \<open>
  Modelled from the spec: the unit tree (\<^verbatim>\<open>tree_t\<close>, \<^verbatim>\<open>tree_ident\<close>, from \<^verbatim>\<open>tree.h\<close>). A
  unit reports one identifier; \<open>tree_body\<close> stands for everything else in it, so that
  two units with the same identifier can differ. The binary encoding is an opaque
  service: a unit file holds the unit written to it.
\<close>

datatype tree_t = Tree (tree_ident: ident_t) (tree_body: string)

subsection \<open>The file system\<close>

type_synonym path = string

datatype content = Text string | Unit tree_t

datatype node = Dir | File content

datatype syscall =
    Access path
  | Mkdir path
  | Realpath path
  | FopenR path
  | FopenW path
  | Fwrite path
  | Opendir path
  | Unlink path
  | Rmdir path

text \<open>
  \<open>nodes\<close> maps the resolved path of every existing directory and file to what is
  there; \<open>canon\<close> is the kernel's path resolution (working directory, dot segments,
  links), \<open>denied\<close> the calls the system refuses for reasons of its own (permissions,
  a missing parent, a full disk). \<open>trace\<close> is the list of the system calls made so
  far, each with its outcome.
\<close>

record filesys =
  nodes :: "(path \<times> node) list"
  canon :: "path \<Rightarrow> path"
  denied :: "syscall \<Rightarrow> bool"
  trace :: "(syscall \<times> bool) list"

definition log :: "syscall \<Rightarrow> bool \<Rightarrow> filesys \<Rightarrow> filesys" where
  "log c ok fs = fs\<lparr>trace := trace fs @ [(c, ok)]\<rparr>"

text \<open>
  The empty path names nothing (\<^verbatim>\<open>ENOENT\<close>), and neither does a path whose resolution
  does not fit \<^verbatim>\<open>PATH_MAX\<close> bytes (\<^verbatim>\<open>ENAMETOOLONG\<close>).
\<close>

definition nameable :: "filesys \<Rightarrow> path \<Rightarrow> bool" where
  "nameable fs p = (p \<noteq> [] \<and> length (canon fs p) < PATH_MAX)"

definition lookup :: "filesys \<Rightarrow> path \<Rightarrow> node option" where
  "lookup fs p = (if nameable fs p then map_of (nodes fs) (canon fs p) else None)"

definition put_node :: "path \<Rightarrow> node \<Rightarrow> (path \<times> node) list \<Rightarrow> (path \<times> node) list" where
  "put_node p n ns = (p, n) # filter (\<lambda>kv. fst kv \<noteq> p) ns"

definition del_node :: "path \<Rightarrow> (path \<times> node) list \<Rightarrow> (path \<times> node) list" where
  "del_node p ns = filter (\<lambda>kv. fst kv \<noteq> p) ns"

text \<open>The names directly inside directory \<open>d\<close>, read off the resolved paths.\<close>

definition children :: "path \<Rightarrow> (path \<times> node) list \<Rightarrow> string list" where
  "children d ns =
     (let pre = (if d = ''/'' then d else d @ ''/'')
      in [drop (length pre) k. k \<leftarrow> map fst ns,
            take (length pre) k = pre \<and> drop (length pre) k \<noteq> []
            \<and> CHR ''/'' \<notin> set (drop (length pre) k)])"

definition access :: "path \<Rightarrow> filesys \<Rightarrow> bool \<times> filesys" where
  "access p fs =
     (let ok = (lookup fs p \<noteq> None \<and> \<not> denied fs (Access p))
      in (ok, log (Access p) ok fs))"

definition mkdir :: "path \<Rightarrow> filesys \<Rightarrow> bool \<times> filesys" where
  "mkdir p fs =
     (let ok = (nameable fs p \<and> lookup fs p = None \<and> \<not> denied fs (Mkdir p))
      in (ok, log (Mkdir p) ok
                (if ok then fs\<lparr>nodes := put_node (canon fs p) Dir (nodes fs)\<rparr> else fs)))"

text \<open>
  \<^verbatim>\<open>realpath(p, buf)\<close> writes the resolved path of \<open>p\<close> into the buffer; it succeeds
  on every path that names something. When it fails it writes nothing: the buffer
  reads afterwards as it did before the call (\<open>buf\<close>).
\<close>

definition realpath :: "path \<Rightarrow> string \<Rightarrow> filesys \<Rightarrow> string \<times> filesys" where
  "realpath p buf fs =
     (let ok = (lookup fs p \<noteq> None)
      in (if ok then canon fs p else buf, log (Realpath p) ok fs))"

text \<open>An open \<^verbatim>\<open>FILE *\<close> is the resolved path of its file; \<open>None\<close> is \<^verbatim>\<open>NULL\<close>.\<close>

datatype fmode = R | W

definition fopen :: "path \<Rightarrow> fmode \<Rightarrow> filesys \<Rightarrow> path option \<times> filesys" where
  "fopen p m fs =
     (case m of
        R \<Rightarrow>
          (let ok = ((case lookup fs p of Some (File c) \<Rightarrow> True | _ \<Rightarrow> False)
                     \<and> \<not> denied fs (FopenR p))
           in (if ok then Some (canon fs p) else None, log (FopenR p) ok fs))
      | W \<Rightarrow>
          (let ok = (nameable fs p \<and> lookup fs p \<noteq> Some Dir \<and> \<not> denied fs (FopenW p))
           in (if ok then Some (canon fs p) else None,
               log (FopenW p) ok
                 (if ok then fs\<lparr>nodes := put_node (canon fs p) (File (Text [])) (nodes fs)\<rparr>
                  else fs))))"

text \<open>Writing through an open file and closing it: the file holds the content.\<close>

definition fwrite :: "path \<Rightarrow> content \<Rightarrow> filesys \<Rightarrow> filesys" where
  "fwrite f c fs = log (Fwrite f) True (fs\<lparr>nodes := put_node f (File c) (nodes fs)\<rparr>)"

definition fread :: "path \<Rightarrow> filesys \<Rightarrow> content option" where
  "fread f fs = (case map_of (nodes fs) f of Some (File c) \<Rightarrow> Some c | _ \<Rightarrow> None)"

text \<open>\<^verbatim>\<open>opendir\<close> with every \<^verbatim>\<open>readdir\<close> that follows: the entry names, dot entries first.\<close>

definition opendir :: "path \<Rightarrow> filesys \<Rightarrow> string list option \<times> filesys" where
  "opendir p fs =
     (let ok = (lookup fs p = Some Dir \<and> \<not> denied fs (Opendir p))
      in (if ok then Some (''.'' # ''..'' # children (canon fs p) (nodes fs)) else None,
          log (Opendir p) ok fs))"

definition unlink :: "path \<Rightarrow> filesys \<Rightarrow> bool \<times> filesys" where
  "unlink p fs =
     (let ok = ((case lookup fs p of Some (File c) \<Rightarrow> True | _ \<Rightarrow> False)
                \<and> \<not> denied fs (Unlink p))
      in (ok, log (Unlink p) ok
                (if ok then fs\<lparr>nodes := del_node (canon fs p) (nodes fs)\<rparr> else fs)))"

definition rmdir :: "path \<Rightarrow> filesys \<Rightarrow> bool \<times> filesys" where
  "rmdir p fs =
     (let ok = (lookup fs p = Some Dir \<and> children (canon fs p) (nodes fs) = []
                \<and> \<not> denied fs (Rmdir p))
      in (ok, log (Rmdir p) ok
                (if ok then fs\<lparr>nodes := del_node (canon fs p) (nodes fs)\<rparr> else fs)))"

subsection \<open>Libraries, the registry and the work pointer\<close>

text \<open>
  \<^verbatim>\<open>struct lib_unit\<close> and \<^verbatim>\<open>struct lib\<close>. The array \<^verbatim>\<open>units\<close> with its fill count
  \<^verbatim>\<open>n_units\<close> is the list \<open>l_units\<close>: \<^verbatim>\<open>n_units\<close> is its length.
\<close>

record lib_unit =
  u_top :: tree_t
  u_dirty :: bool

record lib =
  l_path :: string
  l_name :: ident_t
  l_units :: "lib_unit list"

text \<open>
  A handle \<^verbatim>\<open>lib_t\<close> is the address of a \<^verbatim>\<open>struct lib\<close>. \<open>heap\<close> holds the live
  objects; \<open>brk\<close> is the next address \<^verbatim>\<open>xmalloc\<close> hands out (addresses are not
  reused). \<open>loaded\<close> is the linked list of the same name, head first; \<open>work\<close> is the
  work pointer, \<open>None\<close> for \<^verbatim>\<open>NULL\<close>. \<open>environ\<close> is the process environment and
  \<open>stderr\<close> the lines written to the diagnostic stream. \<^verbatim>\<open>xmalloc\<close> does not clear
  the block it returns: \<open>uninit a\<close> is the string that the \<^verbatim>\<open>path\<close> field of the block
  at address \<open>a\<close> holds before anything is written to it.
\<close>

type_synonym lib_t = nat

record state =
  heap :: "lib_t \<Rightarrow> lib option"
  brk :: nat
  loaded :: "lib_t list"
  work :: "lib_t option"
  fs :: filesys
  environ :: "string \<Rightarrow> string option"
  stderr :: "string list"
  uninit :: "lib_t \<Rightarrow> string"

datatype fault = AssertFail | Fatal | BadPointer | ReadError

text \<open>The two macros of the build configuration that the file uses.\<close>

record build =
  PACKAGE_STRING :: string
  DATADIR :: string

subsection \<open>Constructing and registering a handle\<close>

text \<open>
  \<^verbatim>\<open>lib_init\<close> does not look at the result of \<^verbatim>\<open>realpath\<close>. When the call fails, as it
  does on the empty path that \<^verbatim>\<open>lib_tmp\<close> passes, the path of the new object is what
  the block held: such a handle passes the tests marked \<^verbatim>\<open>Temporary library\<close> only
  when that memory starts with a zero byte.
\<close>

definition lib_init :: "string \<Rightarrow> string \<Rightarrow> state \<Rightarrow> state \<times> lib_t" where
  "lib_init nm rpath s =
     (let l = brk s;
          (p, fs1) = realpath rpath (uninit s l) (fs s);
          obj = \<lparr>l_path = p, l_name = upcase_name nm, l_units = []\<rparr>
      in (s\<lparr>heap := (heap s)(l \<mapsto> obj), brk := Suc l, loaded := l # loaded s, fs := fs1\<rparr>,
          l))"

definition lib_tmp :: "state \<Rightarrow> state \<times> lib_t" where
  "lib_tmp s = lib_init ''work'' [] s"

definition lib_name :: "lib_t \<Rightarrow> state \<Rightarrow> fault + ident_t" where
  "lib_name lb s = (case heap s lb of None \<Rightarrow> Inl BadPointer | Some l \<Rightarrow> Inr (l_name l))"

subsection \<open>Releasing a handle\<close>

text \<open>
  The loop of \<^verbatim>\<open>lib_free\<close>. \<open>it\<close> is the cursor and \<open>ld\<close> the current value of
  \<^verbatim>\<open>loaded\<close>. \<^verbatim>\<open>prev\<close> is initialised to \<^verbatim>\<open>NULL\<close> and assigned nowhere (the step of the
  loop is \<^verbatim>\<open>loaded = it, it = it->next\<close>), so on a match the branch taken is always
  \<^verbatim>\<open>loaded = it->next\<close>; on a mismatch the step moves \<^verbatim>\<open>loaded\<close> to the cursor.
\<close>

fun lib_free_loop :: "lib_t \<Rightarrow> lib_t list \<Rightarrow> lib_t list \<Rightarrow> lib_t list" where
  "lib_free_loop lb [] ld = ld"
| "lib_free_loop lb (x # nxt) ld =
     (if x = lb then nxt else lib_free_loop lb nxt (x # nxt))"

definition lib_free :: "lib_t \<Rightarrow> state \<Rightarrow> fault + state" where
  "lib_free lb s =
     (case heap s lb of
        None \<Rightarrow> Inl BadPointer
      | Some l \<Rightarrow>
          Inr (s\<lparr>loaded := lib_free_loop lb (loaded s) (loaded s),
                heap := (heap s)(lb := None)\<rparr>))"

subsection \<open>The work pointer\<close>

definition lib_work :: "state \<Rightarrow> fault + lib_t" where
  "lib_work s = (case work s of None \<Rightarrow> Inl AssertFail | Some w \<Rightarrow> Inr w)"

definition lib_set_work :: "lib_t option \<Rightarrow> state \<Rightarrow> state" where
  "lib_set_work lb s = s\<lparr>work := lb\<rparr>"

subsection \<open>The unit cache\<close>

text \<open>
  \<^verbatim>\<open>lib_put_aux\<close> asserts that the handle and the unit are not \<^verbatim>\<open>NULL\<close> and that the
  array has room; the array of \<^verbatim>\<open>MAX_UNITS\<close> slots is allocated with the first unit.
\<close>

definition lib_put_aux :: "lib_t \<Rightarrow> tree_t \<Rightarrow> bool \<Rightarrow> state \<Rightarrow> fault + state" where
  "lib_put_aux lb unit d s =
     (case heap s lb of
        None \<Rightarrow> Inl BadPointer
      | Some l \<Rightarrow>
          if \<not> length (l_units l) < MAX_UNITS then Inl AssertFail
          else Inr (s\<lparr>heap := (heap s)(lb \<mapsto>
                      l\<lparr>l_units := l_units l @ [\<lparr>u_top = unit, u_dirty = d\<rparr>]\<rparr>)\<rparr>))"

definition lib_put :: "lib_t \<Rightarrow> tree_t \<Rightarrow> state \<Rightarrow> fault + state" where
  "lib_put lb unit s = lib_put_aux lb unit True s"

text \<open>\<^verbatim>\<open>lib_fopen\<close>, on the object the handle points to.\<close>

definition lib_fopen :: "lib \<Rightarrow> string \<Rightarrow> fmode \<Rightarrow> filesys \<Rightarrow> path option \<times> filesys" where
  "lib_fopen l nm m fsys = fopen (snprintf_join PATH_MAX (l_path l) nm) m fsys"

text \<open>
  The external reader (\<^verbatim>\<open>tree_read_begin\<close>, \<^verbatim>\<open>tree_read\<close>): it decodes the unit that
  was written to the file. What it does with \<^verbatim>\<open>NULL\<close> or with a file that holds no unit
  is not in the sources; the model stops there with \<open>ReadError\<close>.
\<close>

definition tree_read :: "path option \<Rightarrow> filesys \<Rightarrow> fault + tree_t" where
  "tree_read f fsys =
     (case f of
        None \<Rightarrow> Inl ReadError
      | Some fp \<Rightarrow> (case fread fp fsys of Some (Unit t) \<Rightarrow> Inr t | _ \<Rightarrow> Inl ReadError))"

text \<open>
  \<^verbatim>\<open>lib_get_ctx\<close>. The result is the state, the unit (\<open>None\<close> for \<^verbatim>\<open>NULL\<close>) and the read
  context that was opened, if any. The first loop is the scan of the array from index
  0; the second looks for the directory entry whose name is the identifier's string.
\<close>

definition lib_get_ctx ::
  "lib_t \<Rightarrow> ident_t \<Rightarrow> state \<Rightarrow> fault + (state \<times> tree_t option \<times> path option)" where
  "lib_get_ctx lb ident s =
     (case heap s lb of
        None \<Rightarrow> Inl BadPointer
      | Some l \<Rightarrow>
          (case find (\<lambda>u. tree_ident (u_top u) = ident) (l_units l) of
             Some u \<Rightarrow> Inr (s, Some (u_top u), None)
           | None \<Rightarrow>
               if l_path l = [] then Inr (s, None, None)
               else
                 (case opendir (l_path l) (fs s) of
                    (None, fs1) \<Rightarrow> Inl Fatal
                  | (Some ents, fs1) \<Rightarrow>
                      (case find (\<lambda>e. e = istr ident) ents of
                         None \<Rightarrow> Inr (s\<lparr>fs := fs1\<rparr>, None, None)
                       | Some e \<Rightarrow>
                           (case lib_fopen l e R fs1 of
                              (f, fs2) \<Rightarrow>
                                (case tree_read f fs2 of
                                   Inl err \<Rightarrow> Inl err
                                 | Inr unit \<Rightarrow>
                                     (case lib_put_aux lb unit False (s\<lparr>fs := fs2\<rparr>) of
                                        Inl err \<Rightarrow> Inl err
                                      | Inr s' \<Rightarrow> Inr (s', Some unit, f))))))))"

definition lib_get :: "lib_t \<Rightarrow> ident_t \<Rightarrow> state \<Rightarrow> fault + (state \<times> tree_t option)" where
  "lib_get lb ident s =
     (case lib_get_ctx lb ident s of
        Inl err \<Rightarrow> Inl err
      | Inr (s', t, ctx) \<Rightarrow> Inr (s', t))"

fun load_entries :: "lib_t \<Rightarrow> string list \<Rightarrow> state \<Rightarrow> fault + state" where
  "load_entries lb [] s = Inr s"
| "load_entries lb (e # es) s =
     (if e \<noteq> [] \<and> hd e \<noteq> CHR ''.'' \<and> hd e \<noteq> CHR ''_'' then
        (case lib_get lb (ident_new e) s of
           Inl err \<Rightarrow> Inl err
         | Inr (s', t) \<Rightarrow> load_entries lb es s')
      else load_entries lb es s)"

definition lib_load_all :: "lib_t \<Rightarrow> state \<Rightarrow> fault + state" where
  "lib_load_all lb s =
     (case heap s lb of
        None \<Rightarrow> Inl BadPointer
      | Some l \<Rightarrow>
          if l_path l = [] then Inr s
          else
            (case opendir (l_path l) (fs s) of
               (None, fs1) \<Rightarrow> Inl Fatal
             | (Some ents, fs1) \<Rightarrow> load_entries lb ents (s\<lparr>fs := fs1\<rparr>)))"

definition lib_foreach :: "lib_t \<Rightarrow> (tree_t \<Rightarrow> 'c \<Rightarrow> 'c) \<Rightarrow> 'c \<Rightarrow> state \<Rightarrow> fault + 'c" where
  "lib_foreach lb fn ctx s =
     (case heap s lb of
        None \<Rightarrow> Inl BadPointer
      | Some l \<Rightarrow> Inr (fold (\<lambda>u c. fn (u_top u) c) (l_units l) ctx))"

subsection \<open>Writing the cache back\<close>

text \<open>
  The loop of \<^verbatim>\<open>lib_save\<close> over the array, first slot first. The source hands the result
  of \<^verbatim>\<open>lib_fopen\<close> to the external writer unchecked; as for the reader, the model stops
  with a fault when the file could not be opened.
\<close>

fun save_units :: "lib \<Rightarrow> lib_unit list \<Rightarrow> filesys \<Rightarrow> fault + (lib_unit list \<times> filesys)" where
  "save_units l [] fsys = Inr ([], fsys)"
| "save_units l (u # us) fsys =
     (if u_dirty u then
        (case lib_fopen l (istr (tree_ident (u_top u))) W fsys of
           (None, fs1) \<Rightarrow> Inl BadPointer
         | (Some f, fs1) \<Rightarrow>
             (case save_units l us (fwrite f (Unit (u_top u)) fs1) of
                Inl err \<Rightarrow> Inl err
              | Inr (us', fs2) \<Rightarrow> Inr (u\<lparr>u_dirty := False\<rparr> # us', fs2)))
      else
        (case save_units l us fsys of
           Inl err \<Rightarrow> Inl err
         | Inr (us', fs2) \<Rightarrow> Inr (u # us', fs2)))"

definition lib_save :: "lib_t \<Rightarrow> state \<Rightarrow> fault + state" where
  "lib_save lb s =
     (case heap s lb of
        None \<Rightarrow> Inl BadPointer
      | Some l \<Rightarrow>
          (case save_units l (l_units l) (fs s) of
             Inl err \<Rightarrow> Inl err
           | Inr (us', fs') \<Rightarrow>
               Inr (s\<lparr>heap := (heap s)(lb \<mapsto> l\<lparr>l_units := us'\<rparr>), fs := fs'\<rparr>)))"

subsection \<open>Finding a library\<close>

text \<open>The directory that \<^verbatim>\<open>lib_find_at\<close> probes: the joined path, lower-cased from its
  first character to its last.\<close>

definition lib_find_at_dir :: "string \<Rightarrow> string \<Rightarrow> string" where
  "lib_find_at_dir nm pth = map tolower (snprintf_join PATH_MAX pth nm)"

definition lib_find_at :: "string \<Rightarrow> string \<Rightarrow> state \<Rightarrow> state \<times> lib_t option" where
  "lib_find_at nm pth s =
     (let dir = lib_find_at_dir nm pth;
          (ok1, fs1) = access dir (fs s)
      in if \<not> ok1 then (s\<lparr>fs := fs1\<rparr>, None)
         else
           (let marker = snprintf_join PATH_MAX dir ''_NVC_LIB'';
                (ok2, fs2) = access marker fs1
            in if \<not> ok2 then (s\<lparr>fs := fs2\<rparr>, None)
               else (let (s', l) = lib_init nm dir (s\<lparr>fs := fs2\<rparr>) in (s', Some l))))"

text \<open>
  \<^verbatim>\<open>push_path\<close>. \<open>base\<close> is the part of the array \<^verbatim>\<open>paths\<close> written so far (the array
  itself starts uninitialised), an entry being a string or \<^verbatim>\<open>NULL\<close>; the call writes
  the slots \<open>idx\<close> and \<open>idx + 1\<close>.
\<close>

definition push_path ::
  "string option list \<times> nat \<Rightarrow> string option \<Rightarrow> string option list \<times> nat" where
  "push_path bi pth =
     (case bi of (base, idx) \<Rightarrow>
        if idx < MAX_SEARCH_PATHS - 1 then (take idx base @ [pth, None], Suc idx)
        else (base, idx))"

text \<open>
  The \<^verbatim>\<open>do ... while\<close> loop over the tokens of \<^verbatim>\<open>NVC_LIBPATH\<close>: the body runs once
  with the result of the first \<^verbatim>\<open>strtok\<close>, which is \<^verbatim>\<open>NULL\<close> when there is no token,
  and then once for every further token.
\<close>

definition push_env :: "string \<Rightarrow> string option list \<times> nat \<Rightarrow> string option list \<times> nat" where
  "push_env libpath_env bi =
     (let toks = strtok_all (CHR '':'') libpath_env;
          path_tok = (case toks of [] \<Rightarrow> None | t # ts \<Rightarrow> Some t)
      in fold (\<lambda>t b. push_path b (Some t)) (tl toks) (push_path bi path_tok))"

definition search_paths :: "build \<Rightarrow> bool \<Rightarrow> string option \<Rightarrow> string option list" where
  "search_paths cfg search libpath_env =
     (let b0 = push_path ([], 0) (Some ''.'')
      in fst (if search then
                push_path (case libpath_env of None \<Rightarrow> b0 | Some e \<Rightarrow> push_env e b0)
                  (Some (DATADIR cfg))
              else b0))"

text \<open>The scan of \<^verbatim>\<open>loaded\<close> for the name, head first.\<close>

fun find_loaded :: "ident_t \<Rightarrow> lib_t list \<Rightarrow> state \<Rightarrow> fault + lib_t option" where
  "find_loaded name_i [] s = Inr None"
| "find_loaded name_i (it # nxt) s =
     (case lib_name it s of
        Inl err \<Rightarrow> Inl err
      | Inr n \<Rightarrow> if n = name_i then Inr (Some it) else find_loaded name_i nxt s)"

text \<open>The scan of \<^verbatim>\<open>paths\<close> up to its first \<^verbatim>\<open>NULL\<close>; it returns at the first hit.\<close>

fun find_paths :: "string \<Rightarrow> string option list \<Rightarrow> state \<Rightarrow> state \<times> lib_t option" where
  "find_paths nm [] s = (s, None)"
| "find_paths nm (None # ps) s = (s, None)"
| "find_paths nm (Some p # ps) s =
     (case lib_find_at nm p s of
        (s', Some l) \<Rightarrow> (s', Some l)
      | (s', None) \<Rightarrow> find_paths nm ps s')"

fun listed :: "string option list \<Rightarrow> string list" where
  "listed [] = []"
| "listed (None # ps) = []"
| "listed (Some p # ps) = p # listed ps"

definition lib_find ::
  "build \<Rightarrow> string \<Rightarrow> bool \<Rightarrow> bool \<Rightarrow> state \<Rightarrow> fault + (state \<times> lib_t option)" where
  "lib_find cfg nm verbose search s =
     (case find_loaded (upcase_name nm) (loaded s) s of
        Inl err \<Rightarrow> Inl err
      | Inr (Some l) \<Rightarrow> Inr (s, Some l)
      | Inr None \<Rightarrow>
          (let paths = search_paths cfg search (environ s ''NVC_LIBPATH'')
           in case find_paths nm paths s of
                (s', Some l) \<Rightarrow> Inr (s', Some l)
              | (s', None) \<Rightarrow>
                  Inr (if verbose then
                         s'\<lparr>stderr := stderr s' @ (''library '' @ nm @ '' not found in:'')
                                       # map (\<lambda>p. ''  '' @ p) (listed paths)\<rparr>
                       else s', None)))"

subsection \<open>Creating and destroying a library on disk\<close>

text \<open>
  \<^verbatim>\<open>lib_new\<close>. The result of \<^verbatim>\<open>lib_fopen\<close> goes to \<^verbatim>\<open>fprintf\<close> unchecked: when the marker
  cannot be opened the process dies on the \<^verbatim>\<open>NULL\<close> stream.
\<close>

definition lib_new :: "build \<Rightarrow> string \<Rightarrow> state \<Rightarrow> fault + (state \<times> lib_t option)" where
  "lib_new cfg nm s =
     (let (exists, fs1) = access nm (fs s)
      in if exists then
           Inr (s\<lparr>fs := fs1, stderr := stderr s @ [''file '' @ nm @ '' already exists'']\<rparr>,
                None)
         else
           (let (made, fs2) = mkdir nm fs1
            in if \<not> made then Inr (s\<lparr>fs := fs2, stderr := stderr s @ [''mkdir'']\<rparr>, None)
               else
                 (let (s3, lb) = lib_init nm nm (s\<lparr>fs := fs2\<rparr>)
                  in case heap s3 lb of
                       None \<Rightarrow> Inl BadPointer
                     | Some l \<Rightarrow>
                         (case lib_fopen l ''_NVC_LIB'' W (fs s3) of
                            (None, fs4) \<Rightarrow> Inl BadPointer
                          | (Some tag, fs4) \<Rightarrow>
                              Inr (s3\<lparr>fs := fwrite tag
                                            (Text (PACKAGE_STRING cfg @ [CHR 0x0A])) fs4\<rparr>,
                                   Some lb)))))"

text \<open>
  The loop of \<^verbatim>\<open>lib_destroy\<close> over the directory entries: a failed \<^verbatim>\<open>unlink\<close> is
  reported and the loop goes on.
\<close>

fun unlink_entries ::
  "lib \<Rightarrow> string list \<Rightarrow> filesys \<times> string list \<Rightarrow> filesys \<times> string list" where
  "unlink_entries l [] acc = acc"
| "unlink_entries l (e # es) (fsys, err) =
     (if e \<noteq> [] \<and> hd e \<noteq> CHR ''.'' then
        (case unlink (snprintf_join PATH_MAX (l_path l) e) fsys of
           (ok, fs1) \<Rightarrow> unlink_entries l es (fs1, if ok then err else err @ [''unlink'']))
      else unlink_entries l es (fsys, err))"

definition lib_destroy :: "lib_t \<Rightarrow> state \<Rightarrow> fault + state" where
  "lib_destroy lb s =
     (case heap s lb of
        None \<Rightarrow> Inl BadPointer
      | Some l \<Rightarrow>
          (case opendir (l_path l) (fs s) of
             (None, fs1) \<Rightarrow> Inr (s\<lparr>fs := fs1, stderr := stderr s @ [''opendir'']\<rparr>)
           | (Some ents, fs1) \<Rightarrow>
               (case unlink_entries l ents (fs1, stderr s) of
                  (fs2, err2) \<Rightarrow>
                    (case rmdir (l_path l) fs2 of
                       (ok, fs3) \<Rightarrow>
                         Inr (s\<lparr>fs := fs3,
                               stderr := (if ok then err2 else err2 @ [''rmdir''])\<rparr>)))))"

subsection \<open>Example states\<close>

text \<open>
  A file system with nothing in it, where paths resolve to themselves and no call is
  refused, and the state of a fresh process on it, in which fresh memory reads as the
  empty string. \<open>ex_alpha\<close> is the state after
  \<^verbatim>\<open>lib_new("alpha")\<close> and \<open>ex_beta\<close> the one after \<^verbatim>\<open>lib_new("beta")\<close> next;
  \<open>ex_lib us fsys\<close> is the state in which the library \<^verbatim>\<open>alpha\<close> (handle 0) caches
  the entries \<open>us\<close> on the file system \<open>fsys\<close>.
\<close>

definition ex_fs :: filesys where
  "ex_fs = \<lparr>nodes = [], canon = (\<lambda>p. p), denied = (\<lambda>c. False), trace = []\<rparr>"

definition ex_init :: state where
  "ex_init = \<lparr>heap = Map.empty, brk = 0, loaded = [], work = None, fs = ex_fs,
              environ = Map.empty, stderr = [], uninit = (\<lambda>a. [])\<rparr>"

definition ex_cfg :: build where
  "ex_cfg = \<lparr>PACKAGE_STRING = ''nvc 0.1'', DATADIR = ''/usr/share/nvc''\<rparr>"

definition ex_fs_alpha :: filesys where
  "ex_fs_alpha =
     \<lparr>nodes = [(''alpha/_NVC_LIB'', File (Text (''nvc 0.1'' @ [CHR 0x0A]))), (''alpha'', Dir)],
      canon = (\<lambda>p. p), denied = (\<lambda>c. False),
      trace = [(Access ''alpha'', False), (Mkdir ''alpha'', True), (Realpath ''alpha'', True),
               (FopenW ''alpha/_NVC_LIB'', True), (Fwrite ''alpha/_NVC_LIB'', True)]\<rparr>"

definition ex_lib :: "lib_unit list \<Rightarrow> filesys \<Rightarrow> state" where
  "ex_lib us fsys =
     \<lparr>heap = [0 \<mapsto> \<lparr>l_path = ''alpha'', l_name = ''ALPHA'', l_units = us\<rparr>],
      brk = 1, loaded = [0], work = None, fs = fsys, environ = Map.empty, stderr = [],
      uninit = (\<lambda>a. [])\<rparr>"

definition ex_alpha :: state where
  "ex_alpha = ex_lib [] ex_fs_alpha"

definition ex_fs_beta :: filesys where
  "ex_fs_beta =
     \<lparr>nodes = [(''beta/_NVC_LIB'', File (Text (''nvc 0.1'' @ [CHR 0x0A]))), (''beta'', Dir),
               (''alpha/_NVC_LIB'', File (Text (''nvc 0.1'' @ [CHR 0x0A]))), (''alpha'', Dir)],
      canon = (\<lambda>p. p), denied = (\<lambda>c. False),
      trace = [(Access ''alpha'', False), (Mkdir ''alpha'', True), (Realpath ''alpha'', True),
               (FopenW ''alpha/_NVC_LIB'', True), (Fwrite ''alpha/_NVC_LIB'', True),
               (Access ''beta'', False), (Mkdir ''beta'', True), (Realpath ''beta'', True),
               (FopenW ''beta/_NVC_LIB'', True), (Fwrite ''beta/_NVC_LIB'', True)]\<rparr>"

definition ex_beta :: state where
  "ex_beta =
     \<lparr>heap = [0 \<mapsto> \<lparr>l_path = ''alpha'', l_name = ''ALPHA'', l_units = []\<rparr>,
              1 \<mapsto> \<lparr>l_path = ''beta'', l_name = ''BETA'', l_units = []\<rparr>],
      brk = 2, loaded = [1, 0], work = None, fs = ex_fs_beta, environ = Map.empty,
      stderr = [], uninit = (\<lambda>a. [])\<rparr>"

text \<open>
  Cache entries: two dirty units that both report \<^verbatim>\<open>E\<close> and a clean unit \<^verbatim>\<open>F\<close>.
  \<open>ex_fs_gone\<close> is the file system after \<^verbatim>\<open>lib_destroy\<close> of \<^verbatim>\<open>alpha\<close>, and
  \<open>ex_fs_saved\<close> the one after a \<^verbatim>\<open>lib_save\<close> that wrote the first unit.
\<close>

definition ex_first :: lib_unit where
  "ex_first = \<lparr>u_top = Tree ''E'' ''first'', u_dirty = True\<rparr>"

definition ex_second :: lib_unit where
  "ex_second = \<lparr>u_top = Tree ''E'' ''second'', u_dirty = True\<rparr>"

definition ex_fs_gone :: filesys where
  "ex_fs_gone =
     \<lparr>nodes = [], canon = (\<lambda>p. p), denied = (\<lambda>c. False),
      trace = [(Access ''alpha'', False), (Mkdir ''alpha'', True), (Realpath ''alpha'', True),
               (FopenW ''alpha/_NVC_LIB'', True), (Fwrite ''alpha/_NVC_LIB'', True),
               (Opendir ''alpha'', True), (Unlink ''alpha/_NVC_LIB'', True),
               (Rmdir ''alpha'', True)]\<rparr>"



text \<open>
  \<open>ex_tmp us fsys\<close> is the state in which the only library is a temporary one (handle
  0, from \<^verbatim>\<open>lib_tmp\<close>) caching \<open>us\<close>, \<open>ex_fs_tmp\<close> the file system after \<^verbatim>\<open>lib_tmp\<close> in
  a fresh process and \<open>ex_fs_leak\<close> the one after a \<^verbatim>\<open>lib_save\<close> on that library;
  \<open>ex_fs_opt\<close> holds a library \<^verbatim>\<open>work\<close> under the base directory \<^verbatim>\<open>/Opt\<close>.
\<close>

definition ex_tmp :: "lib_unit list \<Rightarrow> filesys \<Rightarrow> state" where
  "ex_tmp us fsys =
     \<lparr>heap = [0 \<mapsto> \<lparr>l_path = [], l_name = ''WORK'', l_units = us\<rparr>],
      brk = 1, loaded = [0], work = None, fs = fsys, environ = Map.empty, stderr = [],
      uninit = (\<lambda>a. [])\<rparr>"

definition ex_fs_tmp :: filesys where
  "ex_fs_tmp = \<lparr>nodes = [], canon = (\<lambda>p. p), denied = (\<lambda>c. False),
                trace = [(Realpath [], False)]\<rparr>"

definition ex_fs_leak :: filesys where
  "ex_fs_leak = \<lparr>nodes = [(''/E'', File (Unit (Tree ''E'' ''first'')))],
                 canon = (\<lambda>p. p), denied = (\<lambda>c. False),
                 trace = [(Realpath [], False), (FopenW ''/E'', True), (Fwrite ''/E'', True)]\<rparr>"

definition ex_fs_opt :: filesys where
  "ex_fs_opt =
     \<lparr>nodes = [(''/Opt/work/_NVC_LIB'', File (Text (''nvc 0.1'' @ [CHR 0x0A]))),
               (''/Opt/work'', Dir), (''/Opt'', Dir)],
      canon = (\<lambda>p. p), denied = (\<lambda>c. False), trace = []\<rparr>"


subsection \<open>Notions used in the statements\<close>

text \<open>The canonical names of the registered handles, in list order.\<close>

definition open_names :: "state \<Rightarrow> ident_t list" where
  "open_names s =
     concat (map (\<lambda>h. case heap s h of None \<Rightarrow> [] | Some l \<Rightarrow> [l_name l]) (loaded s))"

text \<open>
  The test \<^verbatim>\<open>lib_find_at\<close> makes on a base directory: both \<^verbatim>\<open>access\<close> calls succeed.
  \<open>probe_calls\<close> lists the system calls of one run of \<^verbatim>\<open>lib_find_at\<close>, and
  \<open>found_lib\<close> is the object it registers on success.
\<close>

definition lib_valid_at :: "filesys \<Rightarrow> string \<Rightarrow> string \<Rightarrow> bool" where
  "lib_valid_at fsys nm pth =
     (fst (access (lib_find_at_dir nm pth) fsys)
      \<and> fst (access (snprintf_join PATH_MAX (lib_find_at_dir nm pth) ''_NVC_LIB'') fsys))"

definition probe_calls :: "filesys \<Rightarrow> string \<Rightarrow> string \<Rightarrow> (syscall \<times> bool) list" where
  "probe_calls fsys nm pth =
     (let dir = lib_find_at_dir nm pth; marker = snprintf_join PATH_MAX dir ''_NVC_LIB''
      in if \<not> fst (access dir fsys) then [(Access dir, False)]
         else if \<not> fst (access marker fsys) then [(Access dir, True), (Access marker, False)]
         else [(Access dir, True), (Access marker, True), (Realpath dir, True)])"

definition found_lib :: "string \<Rightarrow> string \<Rightarrow> state \<Rightarrow> lib" where
  "found_lib nm pth s =
     \<lparr>l_path = canon (fs s) (lib_find_at_dir nm pth), l_name = upcase_name nm, l_units = []\<rparr>"




text \<open>The elements of a list up to and including the first that satisfies \<open>v\<close>.\<close>

fun upto_first :: "('a \<Rightarrow> bool) \<Rightarrow> 'a list \<Rightarrow> 'a list" where
  "upto_first v [] = []"
| "upto_first v (p # ps) = (if v p then [p] else p # upto_first v ps)"

text \<open>The array \<^verbatim>\<open>paths\<close> holding the given strings, then \<^verbatim>\<open>NULL\<close>, with its index.\<close>

definition path_array :: "string list \<Rightarrow> string option list \<times> nat" where
  "path_array xs = (map Some xs @ [None], length xs)"

text \<open>Two file systems that differ in their traces at most.\<close>

definition same_disk :: "filesys \<Rightarrow> filesys \<Rightarrow> bool" where
  "same_disk a b = (nodes b = nodes a \<and> canon b = canon a \<and> denied b = denied a)"

text \<open>
  \<open>ex_search\<close>: a fresh process with \<^verbatim>\<open>NVC_LIBPATH=/a:/b\<close>, where \<^verbatim>\<open>/b\<close> and the data
  directory both hold a library \<^verbatim>\<open>work\<close>.
\<close>

definition ex_fs_search :: filesys where
  "ex_fs_search =
     \<lparr>nodes = [(''/b/work/_NVC_LIB'', File (Text (''nvc 0.1'' @ [CHR 0x0A]))),
               (''/b/work'', Dir), (''/b'', Dir),
               (''/usr/share/nvc/work/_NVC_LIB'', File (Text (''nvc 0.1'' @ [CHR 0x0A]))),
               (''/usr/share/nvc/work'', Dir), (''/usr/share/nvc'', Dir)],
      canon = (\<lambda>p. p), denied = (\<lambda>c. False), trace = []\<rparr>"

definition ex_search :: state where
  "ex_search = \<lparr>heap = Map.empty, brk = 0, loaded = [], work = None, fs = ex_fs_search,
                environ = [''NVC_LIBPATH'' \<mapsto> ''/a:/b''], stderr = [],
                uninit = (\<lambda>a. [])\<rparr>"

section \<open>Properties\<close>

subsection \<open>Evaluation of the examples\<close>

lemmas sys_defs = log_def nameable_def lookup_def put_node_def del_node_def children_def
  access_def mkdir_def realpath_def fopen_def fwrite_def fread_def opendir_def unlink_def
  rmdir_def snprintf_join_def PATH_MAX_def

lemma upcase_examples:
  "upcase_name ''alpha'' = ''ALPHA''" "upcase_name ''beta'' = ''BETA''"
  "upcase_name ''work'' = ''WORK''"
  by code_simp+

lemma ex_alpha_reached: "lib_new ex_cfg ''alpha'' ex_init = Inr (ex_alpha, Some 0)"
  by (simp add: ex_alpha_def ex_lib_def ex_fs_alpha_def lib_new_def lib_init_def lib_fopen_def
      ex_init_def ex_fs_def ex_cfg_def sys_defs upcase_examples Let_def)

lemma ex_beta_reached: "lib_new ex_cfg ''beta'' ex_alpha = Inr (ex_beta, Some 1)"
  by (simp add: ex_beta_def ex_fs_beta_def ex_alpha_def ex_lib_def ex_fs_alpha_def lib_new_def
      lib_init_def lib_fopen_def ex_cfg_def sys_defs upcase_examples Let_def)

lemma ex_puts_reached:
  "lib_put 0 (Tree ''E'' ''first'') ex_alpha = Inr (ex_lib [ex_first] ex_fs_alpha)"
  "lib_put 0 (Tree ''E'' ''second'') (ex_lib [ex_first] ex_fs_alpha)
     = Inr (ex_lib [ex_first, ex_second] ex_fs_alpha)"
  by (simp_all add: ex_alpha_def ex_lib_def ex_first_def ex_second_def lib_put_def
      lib_put_aux_def MAX_UNITS_def)

subsection \<open>The cache: put and get\<close>

lemma find_app:
  "find P (xs @ ys) = (case find P xs of None \<Rightarrow> find P ys | Some x \<Rightarrow> Some x)"
  by (induction xs) auto

lemma find_first_index:
  assumes "i < length xs" "P (xs ! i)" "\<forall>j<i. \<not> P (xs ! j)"
  shows "find P xs = Some (xs ! i)"
  using assms by (auto simp: find_Some_iff)

text \<open>A hit in the cache returns at once: the state, file system included, is as before.\<close>

lemma lib_get_hit:
  assumes "heap s lb = Some l"
    and "find (\<lambda>e. tree_ident (u_top e) = ident) (l_units l) = Some e"
  shows "lib_get lb ident s = Inr (s, Some (u_top e))"
  using assms by (simp add: lib_get_def lib_get_ctx_def)

lemma lib_put_ok:
  assumes "heap s lb = Some l" and "length (l_units l) < MAX_UNITS"
  shows "lib_put lb u s = Inr (s\<lparr>heap := (heap s)(lb \<mapsto>
            l\<lparr>l_units := l_units l @ [\<lparr>u_top = u, u_dirty = True\<rparr>]\<rparr>)\<rparr>)"
  using assms by (simp add: lib_put_def lib_put_aux_def)

text \<open>
  C7. \<^verbatim>\<open>lib_put\<close> on a live handle whose array has room appends the unit as a new last
  entry with the dirty flag set, whatever the cache holds already (there is no test for
  an entry with the same identifier). \<^verbatim>\<open>lib_get\<close> returns the unit of the entry with the
  least index among those reporting the identifier, and leaves the state as it is.
  In particular, after two puts of units \<open>u1\<close> and \<open>u2\<close> that report the same
  identifier, both are in the cache and \<^verbatim>\<open>lib_get\<close> returns \<open>u1\<close> (the oldest entry
  with that identifier, no older entry reporting it).
\<close>

theorem put_appends_get_first:
  assumes "heap s lb = Some l"
  shows "(length (l_units l) < MAX_UNITS \<longrightarrow>
            lib_put lb u s = Inr (s\<lparr>heap := (heap s)(lb \<mapsto>
               l\<lparr>l_units := l_units l @ [\<lparr>u_top = u, u_dirty = True\<rparr>]\<rparr>)\<rparr>))
       \<and> (\<forall>i<length (l_units l).
            tree_ident (u_top (l_units l ! i)) = ident
            \<and> (\<forall>j<i. tree_ident (u_top (l_units l ! j)) \<noteq> ident)
            \<longrightarrow> lib_get lb ident s = Inr (s, Some (u_top (l_units l ! i))))
       \<and> (Suc (length (l_units l)) < MAX_UNITS
            \<and> tree_ident u1 = ident \<and> tree_ident u2 = ident
            \<and> (\<forall>e\<in>set (l_units l). tree_ident (u_top e) \<noteq> ident) \<longrightarrow>
            (\<exists>s1 s2. lib_put lb u1 s = Inr s1 \<and> lib_put lb u2 s1 = Inr s2
               \<and> map_option l_units (heap s2 lb)
                    = Some (l_units l @ [\<lparr>u_top = u1, u_dirty = True\<rparr>,
                                         \<lparr>u_top = u2, u_dirty = True\<rparr>])
               \<and> lib_get lb ident s2 = Inr (s2, Some u1)))"
proof (intro conjI allI impI)
  assume "length (l_units l) < MAX_UNITS"
  then show "lib_put lb u s = Inr (s\<lparr>heap := (heap s)(lb \<mapsto>
               l\<lparr>l_units := l_units l @ [\<lparr>u_top = u, u_dirty = True\<rparr>]\<rparr>)\<rparr>)"
    using assms by (rule lib_put_ok [rotated])
next
  fix i
  assume i: "i < length (l_units l)"
    and p: "tree_ident (u_top (l_units l ! i)) = ident
            \<and> (\<forall>j<i. tree_ident (u_top (l_units l ! j)) \<noteq> ident)"
  have "find (\<lambda>e. tree_ident (u_top e) = ident) (l_units l) = Some (l_units l ! i)"
    using i p by (intro find_first_index) auto
  then show "lib_get lb ident s = Inr (s, Some (u_top (l_units l ! i)))"
    using assms by (rule lib_get_hit [rotated])
next
  assume a: "Suc (length (l_units l)) < MAX_UNITS
            \<and> tree_ident u1 = ident \<and> tree_ident u2 = ident
            \<and> (\<forall>e\<in>set (l_units l). tree_ident (u_top e) \<noteq> ident)"
  define l1 where "l1 = l\<lparr>l_units := l_units l @ [\<lparr>u_top = u1, u_dirty = True\<rparr>]\<rparr>"
  define s1 where "s1 = s\<lparr>heap := (heap s)(lb \<mapsto> l1)\<rparr>"
  define l2 where "l2 = l1\<lparr>l_units := l_units l1 @ [\<lparr>u_top = u2, u_dirty = True\<rparr>]\<rparr>"
  define s2 where "s2 = s1\<lparr>heap := (heap s1)(lb \<mapsto> l2)\<rparr>"
  have p1: "lib_put lb u1 s = Inr s1"
    unfolding s1_def l1_def using assms a by (intro lib_put_ok) auto
  have h1: "heap s1 lb = Some l1" by (simp add: s1_def)
  have p2: "lib_put lb u2 s1 = Inr s2"
    unfolding s2_def l2_def using h1 a by (intro lib_put_ok) (auto simp: l1_def)
  have h2: "heap s2 lb = Some l2" by (simp add: s2_def)
  have u2: "l_units l2 = l_units l @ [\<lparr>u_top = u1, u_dirty = True\<rparr>,
                                       \<lparr>u_top = u2, u_dirty = True\<rparr>]"
    by (simp add: l2_def l1_def)
  have nf: "find (\<lambda>e. tree_ident (u_top e) = ident) (l_units l) = None"
    using a by (auto simp: find_None_iff)
  have f: "find (\<lambda>e. tree_ident (u_top e) = ident) (l_units l2)
             = Some \<lparr>u_top = u1, u_dirty = True\<rparr>"
    using a nf by (simp add: u2 find_app)
  have g: "lib_get lb ident s2 = Inr (s2, Some u1)"
    using lib_get_hit [OF h2 f] by simp
  show "\<exists>s1 s2. lib_put lb u1 s = Inr s1 \<and> lib_put lb u2 s1 = Inr s2
               \<and> map_option l_units (heap s2 lb)
                    = Some (l_units l @ [\<lparr>u_top = u1, u_dirty = True\<rparr>,
                                         \<lparr>u_top = u2, u_dirty = True\<rparr>])
               \<and> lib_get lb ident s2 = Inr (s2, Some u1)"
    using p1 p2 h2 u2 g by auto
qed

text \<open>
  The theorem at the library \<^verbatim>\<open>alpha\<close> with an empty cache, for two units that both
  report \<^verbatim>\<open>E\<close>, and again at the state after the two puts, where the entry of index 0
  is the first that reports \<^verbatim>\<open>E\<close>.
\<close>

theorem put_appends_get_first_witness:
  "lib_put 0 (Tree ''E'' ''first'') ex_alpha = Inr (ex_lib [ex_first] ex_fs_alpha)
   \<and> lib_put 0 (Tree ''E'' ''second'') (ex_lib [ex_first] ex_fs_alpha)
        = Inr (ex_lib [ex_first, ex_second] ex_fs_alpha)
   \<and> lib_get 0 ''E'' (ex_lib [ex_first, ex_second] ex_fs_alpha)
        = Inr (ex_lib [ex_first, ex_second] ex_fs_alpha, Some (Tree ''E'' ''first''))"
proof -
  let ?l = "\<lparr>l_path = ''alpha'', l_name = ''ALPHA'', l_units = []\<rparr>"
  let ?l2 = "\<lparr>l_path = ''alpha'', l_name = ''ALPHA'', l_units = [ex_first, ex_second]\<rparr>"
  let ?s2 = "ex_lib [ex_first, ex_second] ex_fs_alpha"
  have h: "heap ex_alpha 0 = Some ?l" by (simp add: ex_alpha_def ex_lib_def)
  have c: "Suc (length (l_units ?l)) < MAX_UNITS
           \<and> tree_ident (Tree ''E'' ''first'') = ''E''
           \<and> tree_ident (Tree ''E'' ''second'') = ''E''
           \<and> (\<forall>e\<in>set (l_units ?l). tree_ident (u_top e) \<noteq> ''E'')"
    by (simp add: MAX_UNITS_def)
  have c0: "length (l_units ?l) < MAX_UNITS" by (simp add: MAX_UNITS_def)
  from put_appends_get_first [OF h, of "Tree ''E'' ''first''" "''E''"
      "Tree ''E'' ''first''" "Tree ''E'' ''second''"] c c0
  obtain s1 s2 where r: "lib_put 0 (Tree ''E'' ''first'') ex_alpha = Inr s1"
    "lib_put 0 (Tree ''E'' ''second'') s1 = Inr s2"
    "lib_get 0 ''E'' s2 = Inr (s2, Some (Tree ''E'' ''first''))"
    by blast
  have e1: "s1 = ex_lib [ex_first] ex_fs_alpha" using r(1) by (simp add: ex_puts_reached)
  have e2: "s2 = ?s2" using r(2) unfolding e1 by (simp add: ex_puts_reached)
  have h2: "heap ?s2 0 = Some ?l2" by (simp add: ex_lib_def)
  have i0: "0 < length (l_units ?l2)
            \<and> tree_ident (u_top (l_units ?l2 ! 0)) = ''E''
            \<and> (\<forall>j<0. tree_ident (u_top (l_units ?l2 ! j)) \<noteq> ''E'')"
    by (simp add: ex_first_def)
  from put_appends_get_first [OF h2, of "Tree ''E'' ''first''" "''E''"] i0
  have g: "lib_get 0 ''E'' ?s2 = Inr (?s2, Some (u_top (l_units ?l2 ! 0)))"
    by fastforce
  show ?thesis using r g unfolding e1 e2 by (simp add: ex_first_def)
qed

subsection \<open>Releasing a handle\<close>

text \<open>What the loop leaves in \<^verbatim>\<open>loaded\<close>: the cells after the released handle when it is
  in the list, and the last cell alone when it is not.\<close>

lemma lib_free_loop_suffix:
  "lib_free_loop lb xs ld =
     (if lb \<in> set xs then tl (dropWhile (\<lambda>x. x \<noteq> lb) xs)
      else if xs = [] then ld else [last xs])"
  by (induction xs arbitrary: ld) auto

text \<open>
  C3, at a failing input. The libraries \<^verbatim>\<open>alpha\<close> (handle 0) and \<^verbatim>\<open>beta\<close> (handle 1)
  are open, \<^verbatim>\<open>beta\<close> at the head of the list. Releasing \<^verbatim>\<open>alpha\<close> empties the list:
  the handle of \<^verbatim>\<open>beta\<close> is still live, and no longer registered.
\<close>

theorem lib_free_drops_earlier:
  "loaded ex_beta = [1, 0]
   \<and> loaded (projr (lib_free 0 ex_beta)) = []
   \<and> heap (projr (lib_free 0 ex_beta)) 1
       = Some \<lparr>l_path = ''beta'', l_name = ''BETA'', l_units = []\<rparr>"
  by (simp add: lib_free_def ex_beta_def)

subsection \<open>The work pointer\<close>

text \<open>
  C10. \<^verbatim>\<open>lib_free\<close> of a live handle returns and leaves the work pointer as it was, so
  \<^verbatim>\<open>lib_work\<close> answers as before; when the released handle is the work library, the
  work pointer still holds its address, which is no longer live.
\<close>

theorem lib_free_keeps_work:
  assumes "heap s lb = Some l"
  shows "\<exists>s'. lib_free lb s = Inr s' \<and> work s' = work s \<and> lib_work s' = lib_work s
           \<and> heap s' lb = None"
  using assms by (simp add: lib_free_def lib_work_def)

text \<open>The theorem at the library \<^verbatim>\<open>beta\<close>, made the work library and then released.\<close>

theorem lib_free_keeps_work_witness:
  "lib_work (lib_set_work (Some 1) ex_beta) = Inr 1
   \<and> lib_work (projr (lib_free 1 (lib_set_work (Some 1) ex_beta))) = Inr 1
   \<and> heap (projr (lib_free 1 (lib_set_work (Some 1) ex_beta))) 1 = None"
proof -
  have h: "heap (lib_set_work (Some 1) ex_beta) 1
             = Some \<lparr>l_path = ''beta'', l_name = ''BETA'', l_units = []\<rparr>"
    by (simp add: lib_set_work_def ex_beta_def)
  have w: "lib_work (lib_set_work (Some 1) ex_beta) = Inr 1"
    by (simp add: lib_work_def lib_set_work_def)
  from lib_free_keeps_work [OF h] w show ?thesis by auto
qed

subsection \<open>Destroying the directory\<close>

text \<open>\<^verbatim>\<open>lib_destroy\<close> of a live handle returns, and writes the file system and the
  diagnostic stream only.\<close>

lemma lib_destroy_frame:
  assumes "heap s lb = Some l"
  shows "\<exists>fs' err'. lib_destroy lb s = Inr (s\<lparr>fs := fs', stderr := err'\<rparr>)"
  using assms by (auto simp: lib_destroy_def split: prod.splits option.splits)

text \<open>
  C9. \<^verbatim>\<open>lib_destroy\<close> of a live handle, with a backing directory or without, returns
  and leaves the heap (so the cache of every library: entries, order, dirty flags), the
  registry and the work pointer as they were; a \<^verbatim>\<open>lib_get\<close> that hit the cache before
  returns the same unit after, although the directory is gone.
\<close>

theorem lib_destroy_keeps_memory:
  assumes "heap s lb = Some l"
  shows "\<exists>s'. lib_destroy lb s = Inr s' \<and> heap s' = heap s \<and> loaded s' = loaded s
           \<and> work s' = work s
           \<and> (\<forall>ident e. find (\<lambda>e. tree_ident (u_top e) = ident) (l_units l) = Some e
                 \<longrightarrow> lib_get lb ident s' = Inr (s', Some (u_top e)))"
proof -
  from lib_destroy_frame [OF assms] obtain fs' err'
    where d: "lib_destroy lb s = Inr (s\<lparr>fs := fs', stderr := err'\<rparr>)" by blast
  have h: "heap (s\<lparr>fs := fs', stderr := err'\<rparr>) lb = Some l" using assms by simp
  show ?thesis using d lib_get_hit [OF h] by auto
qed

lemma ex_opendir:
  "opendir ''alpha'' ex_fs_alpha
     = (Some [''.'', ''..'', ''_NVC_LIB''], log (Opendir ''alpha'') True ex_fs_alpha)"
  by (simp add: ex_fs_alpha_def opendir_def lookup_def nameable_def children_def PATH_MAX_def)

lemma ex_unlink:
  "unlink_entries \<lparr>l_path = ''alpha'', l_name = ''ALPHA'', l_units = us\<rparr>
      [''.'', ''..'', ''_NVC_LIB''] (log (Opendir ''alpha'') True ex_fs_alpha, [])
    = (log (Unlink ''alpha/_NVC_LIB'') True
         ((log (Opendir ''alpha'') True ex_fs_alpha)\<lparr>nodes := [(''alpha'', Dir)]\<rparr>), [])"
  by (simp add: ex_fs_alpha_def sys_defs)

lemma ex_destroy_reached:
  "lib_destroy 0 (ex_lib us ex_fs_alpha) = Inr (ex_lib us ex_fs_gone)"
  by (simp add: lib_destroy_def ex_lib_def ex_opendir ex_unlink)
     (simp add: ex_fs_alpha_def ex_fs_gone_def sys_defs)

text \<open>
  The theorem at the library \<^verbatim>\<open>alpha\<close> with two units in its cache: the directory
  exists before and not after, and the unit is still returned.
\<close>

theorem lib_destroy_keeps_memory_witness:
  "lookup (fs (ex_lib [ex_first, ex_second] ex_fs_alpha)) ''alpha'' = Some Dir
   \<and> lib_destroy 0 (ex_lib [ex_first, ex_second] ex_fs_alpha)
        = Inr (ex_lib [ex_first, ex_second] ex_fs_gone)
   \<and> lookup (fs (ex_lib [ex_first, ex_second] ex_fs_gone)) ''alpha'' = None
   \<and> lib_get 0 ''E'' (ex_lib [ex_first, ex_second] ex_fs_gone)
        = Inr (ex_lib [ex_first, ex_second] ex_fs_gone, Some (Tree ''E'' ''first''))"
proof -
  let ?l = "\<lparr>l_path = ''alpha'', l_name = ''ALPHA'', l_units = [ex_first, ex_second]\<rparr>"
  have h: "heap (ex_lib [ex_first, ex_second] ex_fs_alpha) 0 = Some ?l"
    by (simp add: ex_lib_def)
  have f: "find (\<lambda>e. tree_ident (u_top e) = ''E'') (l_units ?l) = Some ex_first"
    by (simp add: ex_first_def)
  have before: "lookup (fs (ex_lib [ex_first, ex_second] ex_fs_alpha)) ''alpha'' = Some Dir"
    by (simp add: ex_lib_def ex_fs_alpha_def lookup_def nameable_def PATH_MAX_def)
  have after: "lookup (fs (ex_lib [ex_first, ex_second] ex_fs_gone)) ''alpha'' = None"
    by (simp add: ex_lib_def ex_fs_gone_def lookup_def)
  from lib_destroy_keeps_memory [OF h] f before after show ?thesis
    by (auto simp: ex_destroy_reached ex_first_def)
qed

subsection \<open>Saving\<close>

lemma lib_fopen_W:
  assumes "lib_fopen l nm W fsys = (Some f, fs1)"
  shows "f = canon fsys (snprintf_join PATH_MAX (l_path l) nm)
       \<and> trace fs1 = trace fsys @ [(FopenW (snprintf_join PATH_MAX (l_path l) nm), True)]
       \<and> canon fs1 = canon fsys \<and> denied fs1 = denied fsys"
  using assms by (auto simp: lib_fopen_def fopen_def log_def Let_def split: if_splits)

lemma fwrite_frame:
  "trace (fwrite f c fsys) = trace fsys @ [(Fwrite f, True)]
   \<and> canon (fwrite f c fsys) = canon fsys \<and> denied (fwrite f c fsys) = denied fsys"
  by (simp add: fwrite_def log_def)

lemma save_units_result:
  "save_units l us fsys = Inr (us', fs') \<Longrightarrow>
     us' = map (\<lambda>u. u\<lparr>u_dirty := False\<rparr>) us
     \<and> canon fs' = canon fsys \<and> denied fs' = denied fsys
     \<and> trace fs' = trace fsys @ concat (map
          (\<lambda>u. let p = snprintf_join PATH_MAX (l_path l) (istr (tree_ident (u_top u)))
               in [(FopenW p, True), (Fwrite (canon fsys p), True)])
          (filter u_dirty us))"
proof (induction us arbitrary: fsys us' fs')
  case Nil
  then show ?case by simp
next
  case (Cons u us)
  show ?case
  proof (cases "u_dirty u")
    case False
    with Cons.prems obtain r where r: "save_units l us fsys = Inr (r, fs')" "us' = u # r"
      by (auto split: sum.splits)
    from Cons.IH [OF r(1)] r(2) False show ?thesis by simp
  next
    case True
    let ?p = "snprintf_join PATH_MAX (l_path l) (istr (tree_ident (u_top u)))"
    from True Cons.prems obtain f fs1 r where
      o: "lib_fopen l (istr (tree_ident (u_top u))) W fsys = (Some f, fs1)"
      and r: "save_units l us (fwrite f (Unit (u_top u)) fs1) = Inr (r, fs')"
        "us' = u\<lparr>u_dirty := False\<rparr> # r"
      by (auto split: sum.splits prod.splits option.splits)
    note a = lib_fopen_W [OF o] fwrite_frame [of f "Unit (u_top u)" fs1]
    from Cons.IH [OF r(1)] r(2) True a show ?thesis by (simp add: Let_def)
  qed
qed





subsection \<open>Temporary libraries\<close>

text \<open>
  On a handle with an empty path, \<^verbatim>\<open>lib_put\<close> and \<^verbatim>\<open>lib_get\<close> leave the file system
  alone, \<^verbatim>\<open>lib_get\<close> answering from the cache only, and \<^verbatim>\<open>lib_destroy\<close> makes one
  call, an \<^verbatim>\<open>opendir\<close> of the empty path, which fails.
\<close>

lemma tmp_put_get_destroy:
  assumes "heap s lb = Some l" and "l_path l = []"
  shows "lib_put lb u s = Inr s' \<longrightarrow> fs s' = fs s"
    and "lib_get lb ident s
           = Inr (s, map_option u_top (find (\<lambda>e. tree_ident (u_top e) = ident) (l_units l)))"
    and "lib_destroy lb s
           = Inr (s\<lparr>fs := log (Opendir []) False (fs s), stderr := stderr s @ [''opendir'']\<rparr>)"
  using assms
  by (auto simp: lib_put_def lib_put_aux_def lib_get_def lib_get_ctx_def lib_destroy_def
      opendir_def lookup_def nameable_def split: if_splits option.splits)

lemma ex_tmp_reached: "lib_tmp ex_init = (ex_tmp [] ex_fs_tmp, 0)"
  by (simp add: lib_tmp_def lib_init_def ex_init_def ex_fs_def ex_tmp_def ex_fs_tmp_def
      realpath_def lookup_def nameable_def log_def upcase_examples)

text \<open>
  Whatever the path of the handle holds, a \<^verbatim>\<open>lib_save\<close> that returns has opened a file
  for each dirty entry: the path joined with the identifier.
\<close>

lemma lib_save_opens_dirty:
  assumes "heap s lb = Some l" and "u \<in> set (l_units l)" and "u_dirty u"
    and "lib_save lb s = Inr s'"
  shows "(FopenW (snprintf_join PATH_MAX (l_path l) (istr (tree_ident (u_top u)))), True)
           \<in> set (trace (fs s'))"
proof -
  from assms(1,4) obtain us' fs' where
    r: "save_units l (l_units l) (fs s) = Inr (us', fs')" and s': "fs s' = fs'"
    by (auto simp: lib_save_def split: sum.splits)
  from save_units_result [OF r] assms(2,3) show ?thesis
    unfolding s' by (auto simp: Let_def)
qed

text \<open>
  C2, at a failing input. \<^verbatim>\<open>lib_save\<close> has no test for a temporary library: after
  \<^verbatim>\<open>lib_tmp\<close> (in a process where fresh memory reads as the empty string, so that the
  handle counts as temporary) and a \<^verbatim>\<open>lib_put\<close> of a unit \<^verbatim>\<open>E\<close>, it opens the file \<^verbatim>\<open>/E\<close>
  (the empty path joined with the identifier) for writing and writes the unit there.
\<close>

theorem lib_save_tmp_writes:
  "lib_tmp ex_init = (ex_tmp [] ex_fs_tmp, 0)
   \<and> lib_put 0 (Tree ''E'' ''first'') (ex_tmp [] ex_fs_tmp) = Inr (ex_tmp [ex_first] ex_fs_tmp)
   \<and> lib_save 0 (ex_tmp [ex_first] ex_fs_tmp)
       = Inr (ex_tmp [ex_first\<lparr>u_dirty := False\<rparr>] ex_fs_leak)
   \<and> trace ex_fs_leak = trace ex_fs_tmp @ [(FopenW ''/E'', True), (Fwrite ''/E'', True)]
   \<and> lookup ex_fs_tmp ''/E'' = None
   \<and> lookup ex_fs_leak ''/E'' = Some (File (Unit (Tree ''E'' ''first'')))"
  by (simp add: ex_tmp_reached)
     (simp add: ex_tmp_def ex_fs_tmp_def ex_fs_leak_def ex_first_def lib_put_def lib_put_aux_def
      MAX_UNITS_def lib_save_def lib_fopen_def istr_def sys_defs)

subsection \<open>The directory probed for a library\<close>

lemma lower_example: "lib_find_at_dir ''work'' ''/Opt'' = ''/opt/work''"
  by code_simp

text \<open>
  C4, at a failing input. The base directory \<^verbatim>\<open>/Opt\<close> holds a library: \<^verbatim>\<open>/Opt/work\<close>
  exists with its marker. \<^verbatim>\<open>lib_find_at\<close> lower-cases the base together with the name,
  probes \<^verbatim>\<open>/opt/work\<close>, which does not exist, and rejects the candidate.
\<close>

theorem lib_find_at_lowers_base:
  "lookup ex_fs_opt (''/Opt'' @ ''/'' @ map tolower ''work'') = Some Dir
   \<and> lookup ex_fs_opt (''/Opt'' @ ''/'' @ map tolower ''work'' @ ''/_NVC_LIB'')
       = Some (File (Text (''nvc 0.1'' @ [CHR 0x0A])))
   \<and> lib_find_at_dir ''work'' ''/Opt'' = ''/opt/work''
   \<and> lib_find_at ''work'' ''/Opt'' (ex_init\<lparr>fs := ex_fs_opt\<rparr>)
       = (ex_init\<lparr>fs := log (Access ''/opt/work'') False ex_fs_opt\<rparr>, None)"
proof -
  have l: "map tolower ''work'' = ''work''" by code_simp
  show ?thesis unfolding l lower_example
    by (simp add: lib_find_at_def lower_example)
       (simp add: ex_fs_opt_def ex_init_def sys_defs)
qed

subsection \<open>Creating a library\<close>

text \<open>Logging a call changes the trace only; a node put at a path is found there.\<close>

lemma log_frame [simp]:
  "nodes (log c ok fsys) = nodes fsys" "canon (log c ok fsys) = canon fsys"
  "denied (log c ok fsys) = denied fsys" "trace (log c ok fsys) = trace fsys @ [(c, ok)]"
  by (simp_all add: log_def)

lemma lookup_log [simp]: "lookup (log c ok fsys) p = lookup fsys p"
  by (simp add: lookup_def nameable_def)

lemma nameable_log [simp]: "nameable (log c ok fsys) p = nameable fsys p"
  by (simp add: nameable_def)

lemma map_of_put_node [simp]:
  "map_of (put_node p n ns) q = (if q = p then Some n else map_of ns q)"
  by (induction ns) (auto simp: put_node_def)

lemma access_eq: "access p fsys = (lookup fsys p \<noteq> None \<and> \<not> denied fsys (Access p),
    log (Access p) (lookup fsys p \<noteq> None \<and> \<not> denied fsys (Access p)) fsys)"
  by (simp add: access_def Let_def)


lemma lib_new_success:
  assumes "lib_new cfg nm s = Inr (s', Some lb)"
  shows "lookup (fs s') nm = Some Dir
       \<and> heap s' lb = Some \<lparr>l_path = canon (fs s) nm, l_name = upcase_name nm, l_units = []\<rparr>
       \<and> lookup (fs s') (snprintf_join PATH_MAX (canon (fs s) nm) ''_NVC_LIB'')
           = Some (File (Text (PACKAGE_STRING cfg @ [CHR 0x0A])))
       \<and> loaded s' = lb # loaded s \<and> lb = brk s \<and> brk s' = Suc (brk s)
       \<and> heap s' = (heap s)(lb \<mapsto>
             \<lparr>l_path = canon (fs s) nm, l_name = upcase_name nm, l_units = []\<rparr>)"
proof -
  define fs1 where "fs1 = log (Access nm) False (fs s)"
  define fs2 where "fs2 = log (Mkdir nm) True
                            (fs1\<lparr>nodes := put_node (canon (fs s) nm) Dir (nodes (fs s))\<rparr>)"
  define fs3 where "fs3 = log (Realpath nm) True fs2"
  define obj where "obj = \<lparr>l_path = canon (fs s) nm, l_name = upcase_name nm, l_units = []\<rparr>"
  let ?p = "snprintf_join PATH_MAX (canon (fs s) nm) ''_NVC_LIB''"
  from assms have a0: "\<not> fst (access nm (fs s))"
    by (auto simp: lib_new_def split: prod.splits if_splits)
  then have a: "access nm (fs s) = (False, fs1)"
    by (simp add: access_eq fs1_def)
  from assms have mk: "fst (mkdir nm fs1)"
    by (auto simp: lib_new_def a split: prod.splits if_splits)
  then have n: "nameable (fs s) nm" and m2: "mkdir nm fs1 = (True, fs2)"
    by (auto simp: mkdir_def Let_def fs1_def fs2_def)
  have fs2: "nodes fs2 = put_node (canon (fs s) nm) Dir (nodes (fs s))"
    "canon fs2 = canon (fs s)" "denied fs2 = denied (fs s)"
    by (simp_all add: fs2_def fs1_def)
  have l2: "lookup fs2 nm = Some Dir"
    using n by (simp add: lookup_def nameable_def fs2)
  have i: "lib_init nm nm (s\<lparr>fs := fs2\<rparr>)
    = (s\<lparr>heap := (heap s)(brk s \<mapsto> obj), brk := Suc (brk s),
         loaded := brk s # loaded s, fs := fs3\<rparr>, brk s)"
    using l2 by (simp add: lib_init_def realpath_def Let_def obj_def fs3_def fs2)
  have e: "lib_new cfg nm s =
      (case fopen ?p W fs3 of
         (None, fs4) \<Rightarrow> Inl BadPointer
       | (Some tag, fs4) \<Rightarrow>
           Inr (s\<lparr>heap := (heap s)(brk s \<mapsto> obj), brk := Suc (brk s),
                  loaded := brk s # loaded s,
                  fs := fwrite tag (Text (PACKAGE_STRING cfg @ [CHR 0x0A])) fs4\<rparr>,
                Some (brk s)))"
    by (simp add: lib_new_def a m2 i lib_fopen_def)
       (simp add: obj_def split: prod.splits option.splits)
  note e' = assms [unfolded e]
  obtain ft fs4 where o': "fopen ?p W fs3 = (ft, fs4)" by (cases "fopen ?p W fs3")
  from e' o' have "ft \<noteq> None" by (cases ft) simp_all
  then obtain tag where ft: "ft = Some tag" by blast
  have o: "fopen ?p W fs3 = (Some tag, fs4)" using o' ft by simp
  have q: "(s\<lparr>heap := (heap s)(brk s \<mapsto> obj), brk := Suc (brk s),
              loaded := brk s # loaded s,
              fs := fwrite tag (Text (PACKAGE_STRING cfg @ [CHR 0x0A])) fs4\<rparr>, Some (brk s))
           = (s', Some lb)"
    using e' unfolding o by (simp only: prod.case option.case sum.inject)
  have s': "s' = s\<lparr>heap := (heap s)(brk s \<mapsto> obj), brk := Suc (brk s),
                   loaded := brk s # loaded s,
                   fs := fwrite tag (Text (PACKAGE_STRING cfg @ [CHR 0x0A])) fs4\<rparr>"
    using arg_cong [OF q, of fst] by (simp only: fst_conv)
  have lb: "lb = brk s"
    using arg_cong [OF q, of snd] by (simp only: snd_conv option.inject)
  have l3: "lookup fs3 nm = Some Dir" using l2 by (simp add: fs3_def)
  from o have ok: "nameable fs3 ?p" "lookup fs3 ?p \<noteq> Some Dir" and tag: "tag = canon (fs s) ?p"
    and fs4: "nodes fs4 = put_node tag (File (Text [])) (nodes fs3)" "canon fs4 = canon (fs s)"
    by (auto simp: fopen_def Let_def fs3_def fs2 split: if_splits)
  have ne: "canon (fs s) ?p \<noteq> canon (fs s) nm"
    using ok l3 n by (auto simp: lookup_def nameable_def fs3_def fs2 split: if_splits)
  have np: "nameable (fs s) ?p" using ok by (simp add: nameable_def fs3_def fs2)
  show ?thesis
    using n np ne
    by (simp add: s' lb obj_def fwrite_def lookup_def nameable_def fs4 tag fs3_def fs2)
qed



subsection \<open>Probing one base directory\<close>

lemma same_disk_refl [simp]: "same_disk a a"
  by (simp add: same_disk_def)

lemma same_disk_log [simp]: "same_disk a (log c ok b) = same_disk a b"
  by (simp add: same_disk_def)

lemma same_disk_trans: "same_disk a b \<Longrightarrow> same_disk b c \<Longrightarrow> same_disk a c"
  by (simp add: same_disk_def)

lemma access_disk: "same_disk a b \<Longrightarrow> fst (access p b) = fst (access p a)"
  by (simp add: same_disk_def access_def lookup_def nameable_def Let_def)

lemma lib_valid_at_disk: "same_disk a b \<Longrightarrow> lib_valid_at b nm p = lib_valid_at a nm p"
  by (simp add: lib_valid_at_def access_disk)

lemma probe_calls_disk: "same_disk a b \<Longrightarrow> probe_calls b nm p = probe_calls a nm p"
  by (simp add: probe_calls_def access_disk Let_def)

lemma lib_find_at_valid:
  assumes "lib_valid_at (fs s) nm p"
  shows "\<exists>f. same_disk (fs s) f \<and> trace f = trace (fs s) @ probe_calls (fs s) nm p
           \<and> lib_find_at nm p s
             = (s\<lparr>heap := (heap s)(brk s \<mapsto> found_lib nm p s), brk := Suc (brk s),
                  loaded := brk s # loaded s, fs := f\<rparr>, Some (brk s))"
proof -
  let ?dir = "lib_find_at_dir nm p"
  let ?m = "snprintf_join PATH_MAX ?dir ''_NVC_LIB''"
  let ?f = "log (Realpath ?dir) True (log (Access ?m) True (log (Access ?dir) True (fs s)))"
  from assms have a: "access ?dir (fs s) = (True, log (Access ?dir) True (fs s))"
    and b: "access ?m (log (Access ?dir) True (fs s))
              = (True, log (Access ?m) True (log (Access ?dir) True (fs s)))"
    by (auto simp: lib_valid_at_def access_eq)
  from a have l: "lookup (fs s) ?dir \<noteq> None" by (simp add: access_eq)
  have "lib_find_at nm p s
      = (s\<lparr>heap := (heap s)(brk s \<mapsto> found_lib nm p s), brk := Suc (brk s),
           loaded := brk s # loaded s, fs := ?f\<rparr>, Some (brk s))"
    using l by (simp add: lib_find_at_def a b lib_init_def realpath_def found_lib_def Let_def)
  moreover have "trace ?f = trace (fs s) @ probe_calls (fs s) nm p"
    using assms by (simp add: probe_calls_def lib_valid_at_def Let_def)
  ultimately show ?thesis by (intro exI [of _ ?f]) simp
qed

lemma lib_find_at_invalid:
  assumes "\<not> lib_valid_at (fs s) nm p"
  shows "\<exists>f. same_disk (fs s) f \<and> trace f = trace (fs s) @ probe_calls (fs s) nm p
           \<and> lib_find_at nm p s = (s\<lparr>fs := f\<rparr>, None)"
proof (cases "fst (access (lib_find_at_dir nm p) (fs s))")
  case False
  then show ?thesis
    by (intro exI [of _ "log (Access (lib_find_at_dir nm p)) False (fs s)"])
       (simp add: lib_find_at_def probe_calls_def access_eq Let_def)
next
  case True
  let ?dir = "lib_find_at_dir nm p"
  let ?m = "snprintf_join PATH_MAX ?dir ''_NVC_LIB''"
  from True assms have m: "\<not> fst (access ?m (fs s))" by (simp add: lib_valid_at_def)
  from True m show ?thesis
    by (intro exI [of _ "log (Access ?m) False (log (Access ?dir) True (fs s))"])
       (simp add: lib_find_at_def probe_calls_def access_eq Let_def)
qed

subsection \<open>The scan of the candidates\<close>

text \<open>
  The scan probes the candidates in order up to and including the first valid one,
  and registers a handle for that one; the probes change the trace only.
\<close>

lemma find_paths_result:
  "\<exists>f. same_disk (fs s) f
       \<and> trace f = trace (fs s)
            @ concat (map (probe_calls (fs s) nm) (upto_first (lib_valid_at (fs s) nm) (listed ps)))
       \<and> find_paths nm ps s
           = (case find (lib_valid_at (fs s) nm) (listed ps) of
                None \<Rightarrow> (s\<lparr>fs := f\<rparr>, None)
              | Some p \<Rightarrow>
                  (s\<lparr>heap := (heap s)(brk s \<mapsto> found_lib nm p s), brk := Suc (brk s),
                     loaded := brk s # loaded s, fs := f\<rparr>, Some (brk s)))"
proof (induction nm ps s rule: find_paths.induct)
  case (1 nm s)
  show ?case by (intro exI [of _ "fs s"]) simp
next
  case (2 nm ps s)
  show ?case by (intro exI [of _ "fs s"]) simp
next
  case (3 nm p ps s)
  show ?case
  proof (cases "lib_valid_at (fs s) nm p")
    case True
    from lib_find_at_valid [OF True] obtain f where
      f: "same_disk (fs s) f" "trace f = trace (fs s) @ probe_calls (fs s) nm p"
      "lib_find_at nm p s
         = (s\<lparr>heap := (heap s)(brk s \<mapsto> found_lib nm p s), brk := Suc (brk s),
              loaded := brk s # loaded s, fs := f\<rparr>, Some (brk s))"
      by blast
    show ?thesis using True f by (intro exI [of _ f]) simp
  next
    case False
    from lib_find_at_invalid [OF False] obtain f0 where
      f0: "same_disk (fs s) f0" "trace f0 = trace (fs s) @ probe_calls (fs s) nm p"
      "lib_find_at nm p s = (s\<lparr>fs := f0\<rparr>, None)"
      by blast
    let ?s0 = "s\<lparr>fs := f0\<rparr>"
    have v: "lib_valid_at (fs ?s0) nm = lib_valid_at (fs s) nm"
      "probe_calls (fs ?s0) nm = probe_calls (fs s) nm"
      using f0(1) by (auto simp: lib_valid_at_disk probe_calls_disk)
    have fl: "\<And>q. found_lib nm q ?s0 = found_lib nm q s"
      using f0(1) by (simp add: found_lib_def same_disk_def)
    from "3.IH" [OF f0(3) [symmetric] refl] obtain f where
      f: "same_disk f0 f"
      "trace f = trace f0
            @ concat (map (probe_calls (fs s) nm) (upto_first (lib_valid_at (fs s) nm) (listed ps)))"
      "find_paths nm ps ?s0
           = (case find (lib_valid_at (fs s) nm) (listed ps) of
                None \<Rightarrow> (?s0\<lparr>fs := f\<rparr>, None)
              | Some q \<Rightarrow>
                  (?s0\<lparr>heap := (heap ?s0)(brk ?s0 \<mapsto> found_lib nm q s), brk := Suc (brk ?s0),
                     loaded := brk ?s0 # loaded ?s0, fs := f\<rparr>, Some (brk ?s0)))"
      unfolding v fl by auto
    have d: "same_disk (fs s) f" using f0(1) f(1) by (rule same_disk_trans)
    show ?thesis
      using False d f0 f
      by (intro exI [of _ f]) (simp split: option.splits)
  qed
qed

subsection \<open>The list of candidates\<close>


lemma listed_path_array [simp]: "listed (fst (path_array xs)) = xs"
  by (induction xs) (auto simp: path_array_def)

lemma listed_null: "listed (map Some xs @ None # ys) = xs"
  by (induction xs) auto





subsection \<open>Finding a library that is not open\<close>

lemma lib_find_result:
  assumes "find_loaded (upcase_name nm) (loaded s) s = Inr None"
  shows "\<exists>s' r. lib_find cfg nm verbose search s = Inr (s', r)
          \<and> trace (fs s') = trace (fs s)
               @ concat (map (probe_calls (fs s) nm)
                   (upto_first (lib_valid_at (fs s) nm)
                      (listed (search_paths cfg search (environ s ''NVC_LIBPATH'')))))
          \<and> (case find (lib_valid_at (fs s) nm)
                     (listed (search_paths cfg search (environ s ''NVC_LIBPATH''))) of
                None \<Rightarrow> r = None \<and> loaded s' = loaded s \<and> heap s' = heap s \<and> brk s' = brk s
              | Some p \<Rightarrow> r = Some (brk s) \<and> heap s' = (heap s)(brk s \<mapsto> found_lib nm p s)
                           \<and> loaded s' = brk s # loaded s \<and> brk s' = Suc (brk s))"
proof -
  let ?ps = "search_paths cfg search (environ s ''NVC_LIBPATH'')"
  from find_paths_result [of s nm ?ps] obtain f where
    f: "trace f = trace (fs s)
            @ concat (map (probe_calls (fs s) nm) (upto_first (lib_valid_at (fs s) nm) (listed ?ps)))"
    "find_paths nm ?ps s
           = (case find (lib_valid_at (fs s) nm) (listed ?ps) of
                None \<Rightarrow> (s\<lparr>fs := f\<rparr>, None)
              | Some p \<Rightarrow>
                  (s\<lparr>heap := (heap s)(brk s \<mapsto> found_lib nm p s), brk := Suc (brk s),
                     loaded := brk s # loaded s, fs := f\<rparr>, Some (brk s)))"
    by blast
  show ?thesis
  proof (cases "find (lib_valid_at (fs s) nm) (listed ?ps)")
    case None
    then show ?thesis using assms f by (simp add: lib_find_def)
  next
    case (Some p)
    then show ?thesis using assms f by (simp add: lib_find_def)
  qed
qed












lemma ex_tokens:
  "strtok_all (CHR '':'') ''/a:/b'' = [''/a'', ''/b'']"
  "strtok_all (CHR '':'') ''lib:lib'' = [''lib'', ''lib'']"
  "strtok_all (CHR '':'') [] = []"
  by (simp_all add: strtok_all_def)







text \<open>
  With \<^verbatim>\<open>NVC_LIBPATH\<close> set and holding no token, the first \<^verbatim>\<open>strtok\<close> returns \<^verbatim>\<open>NULL\<close> and
  the loop body pushes it: the array ends there, and \<^verbatim>\<open>DATADIR\<close>, written behind the
  terminator, is never probed.
\<close>

lemma ex_null_token:
  "search_paths ex_cfg True (Some [])
     = [Some ''.'', None, Some ''/usr/share/nvc'', None]"
  "listed (search_paths ex_cfg True (Some [])) = [''.'']"
  by (simp_all add: search_paths_def push_env_def push_path_def ex_tokens MAX_SEARCH_PATHS_def
      ex_cfg_def)


subsection \<open>Names in the registry\<close>

lemma open_names_cons:
  assumes "b \<notin> set (loaded s)"
    and "heap s' = (heap s)(b \<mapsto> obj)" and "loaded s' = b # loaded s"
  shows "open_names s' = l_name obj # open_names s"
proof -
  let ?F = "\<lambda>h. case ((heap s)(b \<mapsto> obj)) h of None \<Rightarrow> [] | Some l \<Rightarrow> [l_name l]"
  let ?G = "\<lambda>h. case heap s h of None \<Rightarrow> [] | Some l \<Rightarrow> [l_name l]"
  have m: "map ?F (loaded s) = map ?G (loaded s)"
    by (rule map_cong) (use assms(1) in auto)
  have "open_names s' = ?F b @ concat (map ?F (loaded s))"
    unfolding open_names_def assms(2,3) by (simp only: list.map concat.simps)
  also have "\<dots> = l_name obj # concat (map ?G (loaded s))"
    unfolding m by simp
  finally show ?thesis by (simp only: open_names_def)
qed

lemma brk_not_loaded:
  "list_all (\<lambda>h. h < brk s) (loaded s) \<Longrightarrow> brk s \<notin> set (loaded s)"
  by (auto simp: list_all_iff)

lemma find_loaded_None:
  "find_loaded n xs s = Inr None \<Longrightarrow>
     n \<notin> set (concat (map (\<lambda>h. case heap s h of None \<Rightarrow> [] | Some l \<Rightarrow> [l_name l]) xs))"
  by (induction xs) (auto simp: lib_name_def split: option.splits if_splits)

lemma lib_find_open:
  assumes "find_loaded (upcase_name nm) (loaded s) s \<noteq> Inr None"
    and "lib_find cfg nm verbose search s = Inr (s', r)"
  shows "s' = s"
  using assms by (auto simp: lib_find_def split: sum.splits option.splits)

lemma lib_tmp_eq:
  "lib_tmp s = (s\<lparr>heap := (heap s)(brk s \<mapsto>
                     \<lparr>l_path = uninit s (brk s), l_name = upcase_name ''work'',
                        l_units = []\<rparr>),
                  brk := Suc (brk s), loaded := brk s # loaded s,
                  fs := log (Realpath []) False (fs s)\<rparr>, brk s)"
  by (simp add: lib_tmp_def lib_init_def realpath_def lookup_def nameable_def Let_def)

text \<open>
  C1, amended. In a state whose registered addresses were all handed out before:
  \<^verbatim>\<open>lib_find\<close> keeps the canonical names in the registry distinct. \<^verbatim>\<open>lib_tmp\<close> and a
  successful \<^verbatim>\<open>lib_new\<close> register their handle without looking at the registry, so the
  names are distinct afterwards exactly when they were before and no registered handle
  had the new canonical name (\<^verbatim>\<open>WORK\<close> for \<^verbatim>\<open>lib_tmp\<close>); a failing \<^verbatim>\<open>lib_new\<close> leaves
  the names as they were.
\<close>

theorem registry_names_preserved:
  assumes "list_all (\<lambda>h. h < brk s) (loaded s)"
  shows "(distinct (open_names s) \<and> lib_find cfg nm verbose search s = Inr (s', r)
            \<longrightarrow> distinct (open_names s'))
       \<and> (distinct (open_names (fst (lib_tmp s)))
            \<longleftrightarrow> distinct (open_names s) \<and> upcase_name ''work'' \<notin> set (open_names s))
       \<and> (lib_new cfg nm s = Inr (s', Some lb) \<longrightarrow>
            (distinct (open_names s')
              \<longleftrightarrow> distinct (open_names s) \<and> upcase_name nm \<notin> set (open_names s)))
       \<and> (lib_new cfg nm s = Inr (s', None) \<longrightarrow> open_names s' = open_names s)"
proof (intro conjI impI)
  note fresh = brk_not_loaded [OF assms]
  {
    assume a: "distinct (open_names s) \<and> lib_find cfg nm verbose search s = Inr (s', r)"
    show "distinct (open_names s')"
    proof (cases "find_loaded (upcase_name nm) (loaded s) s = Inr None")
      case False
      with a lib_find_open [of nm s cfg verbose search s' r] show ?thesis by simp
    next
      case True
      from lib_find_result [OF True, of cfg verbose search] a
      have c: "(case find (lib_valid_at (fs s) nm)
                     (listed (search_paths cfg search (environ s ''NVC_LIBPATH''))) of
                None \<Rightarrow> r = None \<and> loaded s' = loaded s \<and> heap s' = heap s \<and> brk s' = brk s
              | Some p \<Rightarrow> r = Some (brk s) \<and> heap s' = (heap s)(brk s \<mapsto> found_lib nm p s)
                           \<and> loaded s' = brk s # loaded s \<and> brk s' = Suc (brk s))"
        by auto
      have n: "upcase_name nm \<notin> set (open_names s)"
        using find_loaded_None [OF True] by (simp add: open_names_def)
      show ?thesis
      proof (cases "find (lib_valid_at (fs s) nm)
                     (listed (search_paths cfg search (environ s ''NVC_LIBPATH'')))")
        case None
        with c a show ?thesis by (simp add: open_names_def)
      next
        case (Some p)
        with c have "open_names s' = l_name (found_lib nm p s) # open_names s"
          by (intro open_names_cons [OF fresh]) auto
        with a n show ?thesis by (simp add: found_lib_def)
      qed
    qed
  }
  {
    have "open_names (fst (lib_tmp s)) = upcase_name ''work'' # open_names s"
      using open_names_cons [OF fresh, of "fst (lib_tmp s)"
          "\<lparr>l_path = uninit s (brk s), l_name = upcase_name ''work'', l_units = []\<rparr>"]
      by (simp add: lib_tmp_eq)
    then show "distinct (open_names (fst (lib_tmp s)))
            \<longleftrightarrow> distinct (open_names s) \<and> upcase_name ''work'' \<notin> set (open_names s)"
      by auto
  }
  {
    assume a: "lib_new cfg nm s = Inr (s', Some lb)"
    from lib_new_success [OF a] fresh
    have "open_names s' = upcase_name nm # open_names s"
      by (intro open_names_cons [where b = lb and obj = "\<lparr>l_path = canon (fs s) nm,
            l_name = upcase_name nm, l_units = []\<rparr>", simplified]) auto
    then show "distinct (open_names s')
              \<longleftrightarrow> distinct (open_names s) \<and> upcase_name nm \<notin> set (open_names s)"
      by auto
  }
  {
    assume a: "lib_new cfg nm s = Inr (s', None)"
    then have "heap s' = heap s \<and> loaded s' = loaded s"
      by (auto simp: lib_new_def Let_def split: prod.splits if_splits option.splits)
    then show "open_names s' = open_names s" by (simp add: open_names_def)
  }
qed

text \<open>
  The theorem at a \<^verbatim>\<open>lib_find\<close> that opens \<^verbatim>\<open>work\<close>, at \<^verbatim>\<open>lib_tmp\<close> in a fresh process
  and once more after it, and at \<^verbatim>\<open>lib_new("alpha")\<close>.
\<close>

theorem registry_names_preserved_witness:
  "distinct (open_names (fst (projr (lib_find ex_cfg ''work'' False True ex_search))))
   \<and> distinct (open_names (fst (lib_tmp ex_init)))
   \<and> \<not> distinct (open_names (fst (lib_tmp (ex_tmp [] ex_fs_tmp))))
   \<and> distinct (open_names ex_alpha)"
proof -
  have f1: "list_all (\<lambda>h. h < brk ex_search) (loaded ex_search)"
    and f2: "list_all (\<lambda>h. h < brk ex_init) (loaded ex_init)"
    and f3: "list_all (\<lambda>h. h < brk (ex_tmp [] ex_fs_tmp)) (loaded (ex_tmp [] ex_fs_tmp))"
    by (simp_all add: ex_search_def ex_init_def ex_tmp_def)
  have n1: "open_names ex_search = []" and n2: "open_names ex_init = []"
    and n3: "open_names (ex_tmp [] ex_fs_tmp) = [''WORK'']"
    by (simp_all add: open_names_def ex_search_def ex_init_def ex_tmp_def)
  have "find_loaded (upcase_name ''work'') (loaded ex_search) ex_search = Inr None"
    by (simp add: ex_search_def)
  from lib_find_result [OF this, of ex_cfg False True] obtain s' r where
    r: "lib_find ex_cfg ''work'' False True ex_search = Inr (s', r)" by blast
  from registry_names_preserved [OF f1, of ex_cfg "''work''" False True s' r] r n1
  have a: "distinct (open_names (fst (projr (lib_find ex_cfg ''work'' False True ex_search))))"
    by simp
  from registry_names_preserved [OF f2, of ex_cfg "''alpha''" False True ex_alpha None 0]
    ex_alpha_reached n2
  have b: "distinct (open_names (fst (lib_tmp ex_init)))"
    and d: "distinct (open_names ex_alpha)"
    by simp_all
  from registry_names_preserved [OF f3, of ex_cfg "''alpha''" False True ex_alpha None 0] n3
  have c: "\<not> distinct (open_names (fst (lib_tmp (ex_tmp [] ex_fs_tmp))))"
    by (simp add: upcase_examples)
  from a b c d show ?thesis by simp
qed

text \<open>
  C1 as stated fails: two calls of \<^verbatim>\<open>lib_tmp\<close> in a fresh process leave two
  registered handles named \<^verbatim>\<open>WORK\<close>.
\<close>

theorem lib_tmp_twice_same_name:
  "distinct (open_names ex_init)
   \<and> open_names (fst (lib_tmp (fst (lib_tmp ex_init)))) = [''WORK'', ''WORK'']
   \<and> \<not> distinct (open_names (fst (lib_tmp (fst (lib_tmp ex_init)))))"
proof -
  have a: "fst (lib_tmp ex_init) = ex_tmp [] ex_fs_tmp" by (simp add: ex_tmp_reached)
  have "open_names (fst (lib_tmp (ex_tmp [] ex_fs_tmp))) = [''WORK'', ''WORK'']"
    by (simp add: lib_tmp_eq open_names_def ex_tmp_def upcase_examples)
  then show ?thesis unfolding a by (simp add: open_names_def ex_init_def)
qed

subsection \<open>What releasing and registering keep\<close>

text \<open>
  \<^verbatim>\<open>lib_free\<close> writes no file and frees the object; the list it leaves is part of the
  old one and, when the old one had no duplicates, does not hold the released handle.
  The registered addresses stay below the allocation mark under every operation that
  changes the registry.
\<close>

lemma lib_free_loop_subset: "set (lib_free_loop lb xs ld) \<subseteq> set xs \<union> set ld"
  by (auto simp: lib_free_loop_suffix dest!: list.set_sel(2) [rotated] set_dropWhileD)

lemma lib_free_effect:
  assumes "lib_free lb s = Inr s'"
  shows "fs s' = fs s" and "work s' = work s" and "heap s' = (heap s)(lb := None)"
    and "distinct (loaded s) \<Longrightarrow> lb \<notin> set (loaded s')"
    and "set (loaded s') \<subseteq> set (loaded s)"
proof -
  from assms have e: "s' = s\<lparr>loaded := lib_free_loop lb (loaded s) (loaded s),
                              heap := (heap s)(lb := None)\<rparr>"
    by (auto simp: lib_free_def split: option.splits)
  show "fs s' = fs s" "work s' = work s" "heap s' = (heap s)(lb := None)"
    by (simp_all add: e)
  show "set (loaded s') \<subseteq> set (loaded s)"
    using lib_free_loop_subset [of lb "loaded s" "loaded s"] by (simp add: e)
  assume d: "distinct (loaded s)"
  have "\<And>xs. distinct xs \<Longrightarrow> lb \<in> set xs \<Longrightarrow> lb \<notin> set (tl (dropWhile (\<lambda>x. x \<noteq> lb) xs))"
  proof -
    fix xs :: "lib_t list"
    assume "distinct xs" "lb \<in> set xs"
    then show "lb \<notin> set (tl (dropWhile (\<lambda>x. x \<noteq> lb) xs))"
      by (induction xs) auto
  qed
  with d show "lb \<notin> set (loaded s')"
    by (auto simp: e lib_free_loop_suffix)
qed

lemma below_brk_kept:
  assumes "list_all (\<lambda>h. h < brk s) (loaded s)"
  shows "list_all (\<lambda>h. h < brk (fst (lib_tmp s))) (loaded (fst (lib_tmp s)))"
    and "lib_new cfg nm s = Inr (s', r) \<Longrightarrow> list_all (\<lambda>h. h < brk s') (loaded s')"
    and "lib_find cfg nm verbose search s = Inr (s', r)
           \<Longrightarrow> list_all (\<lambda>h. h < brk s') (loaded s')"
    and "lib_free lb s = Inr s' \<Longrightarrow> list_all (\<lambda>h. h < brk s') (loaded s')"
proof -
  have up: "\<And>t. brk t = Suc (brk s) \<Longrightarrow> loaded t = brk s # loaded s
              \<Longrightarrow> list_all (\<lambda>h. h < brk t) (loaded t)"
    using assms by (auto simp: list_all_iff)
  show "list_all (\<lambda>h. h < brk (fst (lib_tmp s))) (loaded (fst (lib_tmp s)))"
    by (rule up) (simp_all add: lib_tmp_eq)
  {
    assume a: "lib_new cfg nm s = Inr (s', r)"
    show "list_all (\<lambda>h. h < brk s') (loaded s')"
    proof (cases r)
      case None
      with a have "brk s' = brk s \<and> loaded s' = loaded s"
        by (auto simp: lib_new_def Let_def split: prod.splits if_splits option.splits)
      with assms show ?thesis by simp
    next
      case (Some lb')
      with a lib_new_success [of cfg nm s s' lb'] show ?thesis by (intro up) auto
    qed
  }
  {
    assume a: "lib_find cfg nm verbose search s = Inr (s', r)"
    show "list_all (\<lambda>h. h < brk s') (loaded s')"
    proof (cases "find_loaded (upcase_name nm) (loaded s) s = Inr None")
      case False
      with a lib_find_open [of nm s cfg verbose search s' r] assms show ?thesis by simp
    next
      case True
      from lib_find_result [OF True, of cfg verbose search] a
      have "(brk s' = brk s \<and> loaded s' = loaded s)
            \<or> (brk s' = Suc (brk s) \<and> loaded s' = brk s # loaded s)"
        by (auto split: option.splits)
      with assms up show ?thesis by auto
    qed
  }
  {
    assume a: "lib_free lb s = Inr s'"
    then have "brk s' = brk s" by (auto simp: lib_free_def split: option.splits)
    with lib_free_effect(5) [OF a] assms show "list_all (\<lambda>h. h < brk s') (loaded s')"
      by (auto simp: list_all_iff)
  }
qed

end
